theory Spec2Isabelle
  imports Main "HOL-Library.Multiset"
begin

section \<open>Data model\<close>

text \<open>
  The observer of \<^verbatim>\<open>media-observer.ts\<close> works on three collaborators whose classes are
  defined in other files: the breakpoint registry, the media matcher and the print hook. Their data is modelled from sections 3 and 4 of the specification; their
  behaviour, where the specification leaves it open, is a parameter (a field holding a
  function), so that every theorem below holds for every matcher and every print hook.

  JavaScript numbers are modelled as integers (breakpoint priorities are integer
  constants); an absent (\<^verbatim>\<open>undefined\<close>) priority is \<open>None\<close>.
\<close>

text \<open>Modelled from the spec: the type \<^verbatim>\<open>BreakPoint\<close> (section 3),
  \<^verbatim>\<open>{alias, mediaQuery, priority (default 0), overlapping}\<close>.\<close>

record BreakPoint =
  bp_alias :: string
  bp_mediaQuery :: string
  bp_priority :: int
  overlapping :: bool

text \<open>Modelled from the spec: the class \<^verbatim>\<open>MediaChange\<close> (section 3),
  \<^verbatim>\<open>{matches, mediaQuery, mqAlias, suffix, priority}\<close>.\<close>

record MediaChange =
  matches :: bool
  mediaQuery :: string
  mqAlias :: string
  suffix :: string
  priority :: "int option"

text \<open>Modelled from the spec: the constructor \<^verbatim>\<open>new MediaChange(matches, mediaQuery)\<close>;
  the alias fields start empty and the priority at its default 0 (section 3).\<close>

definition new_MediaChange :: "bool \<Rightarrow> string \<Rightarrow> MediaChange" where
  "new_MediaChange m q =
     \<lparr>matches = m, mediaQuery = q, mqAlias = [], suffix = [], priority = Some 0\<rparr>"

text \<open>Modelled from the spec: \<^verbatim>\<open>mergeAlias(change, bp)\<close> of \<^verbatim>\<open>../add-alias\<close>, which
  "merges alias/priority from the Registry (if a Breakpoint exists for the query,
  otherwise leaves alias fields empty)" (section 4.2, step 5).\<close>

definition mergeAlias :: "MediaChange \<Rightarrow> BreakPoint option \<Rightarrow> MediaChange" where
  "mergeAlias dest source =
     (case source of
        None \<Rightarrow> dest
      | Some bp \<Rightarrow> dest\<lparr>mqAlias := bp_alias bp, priority := Some (bp_priority bp)\<rparr>)"

text \<open>Modelled from the spec: the \<^verbatim>\<open>BreakPointRegistry\<close> (section 4.1), a static table of
  breakpoints in registration order with pure lookups by alias and by query; absence is
  the normal result \<open>None\<close>.\<close>

record BreakPointRegistry =
  items :: "BreakPoint list"

definition findByAlias :: "BreakPointRegistry \<Rightarrow> string \<Rightarrow> BreakPoint option" where
  "findByAlias locator a = find (\<lambda>bp. bp_alias bp = a) (items locator)"

definition findByQuery :: "BreakPointRegistry \<Rightarrow> string \<Rightarrow> BreakPoint option" where
  "findByQuery locator q = find (\<lambda>bp. bp_mediaQuery bp = q) (items locator)"

text \<open>The media matcher at one instant (section 4.4): the ordered sequence of the queries
  that match now, the current boolean state of an arbitrary query, and, for a list of
  queries to watch, the raw signals it will deliver, each with the time (in milliseconds)
  of its delivery, in the order of delivery. All three are parameters.\<close>

record MatchMedia =
  activations :: "string list"
  mm_isActive :: "string \<Rightarrow> bool"
  observe :: "string list \<Rightarrow> (nat \<times> MediaChange) list"

text \<open>The print hook (section 4.3); its three operations are parameters.\<close>

record PrintHook =
  withPrintQuery :: "string list \<Rightarrow> string list"
  isPrintEvent :: "MediaChange \<Rightarrow> bool"
  updateEvent :: "MediaChange \<Rightarrow> MediaChange"

text \<open>The class \<^verbatim>\<open>MediaObserver\<close>: its configuration flag and the three injected
  collaborators. The constructor leaves \<^verbatim>\<open>filterOverlaps\<close> at its initialiser \<^verbatim>\<open>false\<close>.\<close>

record MediaObserver =
  filterOverlaps :: bool
  breakpoints :: BreakPointRegistry
  matchMedia :: MatchMedia
  hook :: PrintHook

definition new_MediaObserver ::
  "BreakPointRegistry \<Rightarrow> MatchMedia \<Rightarrow> PrintHook \<Rightarrow> MediaObserver" where
  "new_MediaObserver bps mm h =
     \<lparr>filterOverlaps = False, breakpoints = bps, matchMedia = mm, hook = h\<rparr>"

section \<open>The comparator \<^verbatim>\<open>sortChangesByPriority\<close>\<close>

text \<open>
  An argument of the comparator is an object or \<^verbatim>\<open>null\<close>/\<^verbatim>\<open>undefined\<close> (\<open>None\<close>).
  Reading a property of \<^verbatim>\<open>null\<close> or \<^verbatim>\<open>undefined\<close> throws a \<^verbatim>\<open>TypeError\<close>, so the
  property read is a function into a sum type and the guard \<^verbatim>\<open>a ? ... : 0\<close> of the source
  is what keeps the comparator away from it.
\<close>

datatype error = TypeError

definition get_priority :: "MediaChange option \<Rightarrow> error + int option" where
  "get_priority a = (case a of None \<Rightarrow> Inl TypeError | Some c \<Rightarrow> Inr (priority c))"

text \<open>\<^verbatim>\<open>x || d\<close> on an optional number: a falsy \<open>x\<close> (\<^verbatim>\<open>undefined\<close> or 0) gives \<open>d\<close>.\<close>

definition or_else :: "int option \<Rightarrow> int \<Rightarrow> int" where
  "or_else x d = (case x of None \<Rightarrow> d | Some n \<Rightarrow> if n = 0 then d else n)"

text \<open>\<^verbatim>\<open>a ? a.priority || 0 : 0\<close>\<close>

definition priority_of :: "MediaChange option \<Rightarrow> error + int" where
  "priority_of a =
     (if a \<noteq> None
      then (case get_priority a of Inl e \<Rightarrow> Inl e | Inr p \<Rightarrow> Inr (or_else p 0))
      else Inr 0)"

definition sortChangesByPriority ::
  "MediaChange option \<Rightarrow> MediaChange option \<Rightarrow> error + int" where
  "sortChangesByPriority a b =
     (case priority_of a of
        Inl e \<Rightarrow> Inl e
      | Inr priorityA \<Rightarrow>
          (case priority_of b of
             Inl e \<Rightarrow> Inl e
           | Inr priorityB \<Rightarrow> Inr (priorityB - priorityA)))"

text \<open>The priority an entry counts with, a missing entry or priority counting as 0.\<close>

definition effective_priority :: "MediaChange option \<Rightarrow> int" where
  "effective_priority a =
     (case a of None \<Rightarrow> 0 | Some c \<Rightarrow> (case priority c of None \<Rightarrow> 0 | Some p \<Rightarrow> p))"

section \<open>\<^verbatim>\<open>Array.prototype.sort\<close> with a comparator\<close>

text \<open>
  The sort is stable, and for a comparator that orders consistently its result does not
  depend on the engine's algorithm; it is modelled by insertion from the right: \<open>x\<close>
  goes before the first \<open>y\<close> with \<open>cmp x y \<le> 0\<close>. An exception of the comparator ends the
  sort.
\<close>

fun insert_by ::
  "('a option \<Rightarrow> 'a option \<Rightarrow> error + int) \<Rightarrow> 'a \<Rightarrow> 'a list \<Rightarrow> error + 'a list" where
  "insert_by cmp x [] = Inr [x]"
| "insert_by cmp x (y # ys) =
     (case cmp (Some x) (Some y) of
        Inl e \<Rightarrow> Inl e
      | Inr n \<Rightarrow>
          if n \<le> 0 then Inr (x # y # ys)
          else (case insert_by cmp x ys of Inl e \<Rightarrow> Inl e | Inr zs \<Rightarrow> Inr (y # zs)))"

fun sort_by ::
  "('a option \<Rightarrow> 'a option \<Rightarrow> error + int) \<Rightarrow> 'a list \<Rightarrow> error + 'a list" where
  "sort_by cmp [] = Inr []"
| "sort_by cmp (x # xs) =
     (case sort_by cmp xs of Inl e \<Rightarrow> Inl e | Inr ys \<Rightarrow> insert_by cmp x ys)"

section \<open>The methods of \<^verbatim>\<open>MediaObserver\<close>\<close>

definition toMediaQuery :: "string \<Rightarrow> BreakPointRegistry \<Rightarrow> string" where
  "toMediaQuery query locator =
     (let bp = (case findByAlias locator query of
                  Some b \<Rightarrow> Some b
                | None \<Rightarrow> findByQuery locator query)
      in case bp of Some b \<Rightarrow> bp_mediaQuery b | None \<Rightarrow> query)"

definition isActive :: "MediaObserver \<Rightarrow> string \<Rightarrow> bool" where
  "isActive obs a =
     (let query = toMediaQuery a (breakpoints obs) in mm_isActive (matchMedia obs) query)"

definition mergeMQAlias :: "MediaObserver \<Rightarrow> MediaChange \<Rightarrow> MediaChange" where
  "mergeMQAlias obs change =
     (let bp = findByQuery (breakpoints obs) (mediaQuery change) in mergeAlias change bp)"

definition replaceWithPrintAlias :: "MediaObserver \<Rightarrow> MediaChange \<Rightarrow> MediaChange" where
  "replaceWithPrintAlias obs change =
     (if isPrintEvent (hook obs) change then updateEvent (hook obs) change else change)"

definition findAllActivations :: "MediaObserver \<Rightarrow> error + MediaChange list" where
  "findAllActivations obs =
     sort_by sortChangesByPriority
       (map (mergeMQAlias obs)
         (map (replaceWithPrintAlias obs)
           (map (\<lambda>query. new_MediaChange True query)
             (activations (matchMedia obs)))))"

definition isValidQuery :: "MediaChange \<Rightarrow> bool" where
  "isValidQuery change = (length (mediaQuery change) > 0)"

definition hasChanges :: "MediaChange list \<Rightarrow> bool" where
  "hasChanges changes = (length (filter isValidQuery changes) > 0)"

definition excludeOverlaps :: "MediaObserver \<Rightarrow> MediaChange list \<Rightarrow> MediaChange list" where
  "excludeOverlaps obs changes =
     (if \<not> filterOverlaps obs then changes
      else filter (\<lambda>change.
             let bp = findByQuery (breakpoints obs) (mediaQuery change)
             in (case bp of None \<Rightarrow> True | Some b \<Rightarrow> \<not> overlapping b)) changes)"

section \<open>The pipe of \<^verbatim>\<open>buildObservable\<close>\<close>

text \<open>
  What an observable delivers for one notification of its source is a list of
  notifications, each a value or an error: \<^verbatim>\<open>of(x)\<close> delivers the one value \<open>x\<close>, or the
  error when computing \<open>x\<close> threw; \<^verbatim>\<open>map\<close> and \<^verbatim>\<open>filter\<close> act on values and pass an
  error on.
\<close>

definition rx_of :: "error + 'a \<Rightarrow> (error + 'a) list" where
  "rx_of r = [r]"

definition rx_map :: "('a \<Rightarrow> 'b) \<Rightarrow> (error + 'a) list \<Rightarrow> (error + 'b) list" where
  "rx_map f ns = map (\<lambda>n. case n of Inl e \<Rightarrow> Inl e | Inr v \<Rightarrow> Inr (f v)) ns"

definition rx_filter :: "('a \<Rightarrow> bool) \<Rightarrow> (error + 'a) list \<Rightarrow> (error + 'a) list" where
  "rx_filter P ns = filter (\<lambda>n. case n of Inl e \<Rightarrow> True | Inr v \<Rightarrow> P v) ns"

text \<open>
  The last three operators of the pipe,
  \<^verbatim>\<open>switchMap(_ => of(this.findAllActivations())), map(excludeOverlaps), filter(hasChanges)\<close>,
  on one debounced signal: what is published for it, with the observer and its
  collaborators in the state \<open>obs\<close> they have at that moment. The inner observable of
  \<^verbatim>\<open>switchMap\<close> completes at once, so there is never one to switch away from.
\<close>

definition recomputation ::
  "MediaObserver \<Rightarrow> MediaChange \<Rightarrow> (error + MediaChange list) list" where
  "recomputation obs signal =
     rx_filter hasChanges (rx_map (excludeOverlaps obs) (rx_of (findAllActivations obs)))"

text \<open>
  \<^verbatim>\<open>debounceTime(due)\<close> on signals given with their times, in time order: each signal
  starts a timer of \<open>due\<close> milliseconds in place of the pending one; a timer that runs
  out delivers its signal. A signal that arrives in the very millisecond in which the
  pending timer runs out is handled first and takes its place. So a signal is delivered
  when the next one comes later than its timer runs out, and the last one is (the
  observation lasts long enough).
\<close>

fun debounceTime :: "nat \<Rightarrow> (nat \<times> 'a) list \<Rightarrow> (nat \<times> 'a) list" where
  "debounceTime due [] = []"
| "debounceTime due [(t, v)] = [(t + due, v)]"
| "debounceTime due ((t, v) # (t', v') # rest) =
     (if t + due < t' then (t + due, v) # debounceTime due ((t', v') # rest)
      else debounceTime due ((t', v') # rest))"

text \<open>An error notification ends an observable: nothing is delivered after it.\<close>

fun until_error :: "(nat \<times> (error + 'a)) list \<Rightarrow> (nat \<times> (error + 'a)) list" where
  "until_error [] = []"
| "until_error ((t, Inl e) # rest) = [(t, Inl e)]"
| "until_error ((t, Inr v) # rest) = (t, Inr v) # until_error rest"

text \<open>
  The whole pipe. \<open>obs t\<close> is the observer with its collaborators as they are at time
  \<open>t\<close> (the flag \<^verbatim>\<open>filterOverlaps\<close> and the matcher's activations change over time); the
  observable is built at time 0. Each debounced signal is recomputed in the state of the
  moment it is delivered. The result is the published notifications with their times.
\<close>

definition recomputations ::
  "(nat \<Rightarrow> MediaObserver) \<Rightarrow> (nat \<times> MediaChange) list
     \<Rightarrow> (nat \<times> (error + MediaChange list)) list" where
  "recomputations obs debounced =
     concat (map (\<lambda>(t, change). map (Pair t) (recomputation (obs t) change)) debounced)"

definition buildObservable ::
  "(nat \<Rightarrow> MediaObserver) \<Rightarrow> string list \<Rightarrow> (nat \<times> (error + MediaChange list)) list" where
  "buildObservable obs mqList =
     until_error
       (recomputations obs
         (debounceTime 10
           (filter (\<lambda>(t, change). matches change)
             (observe (matchMedia (obs 0)) (withPrintQuery (hook (obs 0)) mqList)))))"

definition watchActivations ::
  "(nat \<Rightarrow> MediaObserver) \<Rightarrow> (nat \<times> (error + MediaChange list)) list" where
  "watchActivations obs =
     (let queries = map bp_mediaQuery (items (breakpoints (obs 0)))
      in buildObservable obs queries)"

text \<open>The list before the sort, and the priority the sort orders an entry by.\<close>

definition activation_entries :: "MediaObserver \<Rightarrow> MediaChange list" where
  "activation_entries obs =
     map (\<lambda>query. mergeMQAlias obs (replaceWithPrintAlias obs (new_MediaChange True query)))
       (activations (matchMedia obs))"

definition prio :: "MediaChange \<Rightarrow> int" where
  "prio c = effective_priority (Some c)"

section \<open>Bursts of signals\<close>

text \<open>
  Signals arrive within one window of \<open>due\<close> milliseconds when there is at least one,
  they come in time order, and any two are less than \<open>due\<close> apart.
\<close>

definition within_window :: "nat \<Rightarrow> (nat \<times> 'a) list \<Rightarrow> bool" where
  "within_window due sigs =
     (sigs \<noteq> [] \<and> sorted (map fst sigs) \<and>
      (\<forall>t \<in> set (map fst sigs). \<forall>t' \<in> set (map fst sigs). t' < t + due))"

text \<open>
  A burst is at least one signal, each arriving no later than \<open>due\<close> milliseconds after
  the one before it, so that it finds the timer of the one before it pending. Signals
  that arrive within one window are a burst; so is a longer chain, such as signals at
  the times 0, 6 and 12 for a window of 10.
\<close>

fun burst :: "nat \<Rightarrow> (nat \<times> 'a) list \<Rightarrow> bool" where
  "burst due [] = False"
| "burst due [(t, v)] = True"
| "burst due ((t, v) # (t', v') # rest) = (t' \<le> t + due \<and> burst due ((t', v') # rest))"

text \<open>
  The signals \<open>ys\<close> come after the signals \<open>xs\<close>, the first of them more than \<open>due\<close>
  milliseconds after the last of \<open>xs\<close> (or one of the two is empty).
\<close>

definition apart :: "nat \<Rightarrow> (nat \<times> 'a) list \<Rightarrow> (nat \<times> 'a) list \<Rightarrow> bool" where
  "apart due xs ys =
     (case (xs, ys) of
        ([], _) \<Rightarrow> True
      | (_, []) \<Rightarrow> True
      | (_ # _, (t', _) # _) \<Rightarrow> fst (last xs) + due < t')"

section \<open>A configuration to evaluate on\<close>

text \<open>
  Three breakpoints with the priorities 1, 5 and 3, the last one overlapping; a print
  hook that replaces the event of the query \<open>print\<close> by the event of the breakpoint
  \<open>md\<close>; a matcher given by the queries active now and the raw signals it delivers.
\<close>

definition bp_sm :: BreakPoint where
  "bp_sm = \<lparr>bp_alias = ''sm'', bp_mediaQuery = ''q-sm'', bp_priority = 1, overlapping = False\<rparr>"

definition bp_md :: BreakPoint where
  "bp_md = \<lparr>bp_alias = ''md'', bp_mediaQuery = ''q-md'', bp_priority = 5, overlapping = False\<rparr>"

definition bp_gt_sm :: BreakPoint where
  "bp_gt_sm =
     \<lparr>bp_alias = ''gt-sm'', bp_mediaQuery = ''q-gt-sm'', bp_priority = 3, overlapping = True\<rparr>"

definition demo_registry :: BreakPointRegistry where
  "demo_registry = \<lparr>items = [bp_sm, bp_md, bp_gt_sm]\<rparr>"

definition demo_hook :: PrintHook where
  "demo_hook =
     \<lparr>withPrintQuery = (\<lambda>qs. qs @ [''print'']),
      isPrintEvent = (\<lambda>c. mediaQuery c = ''print''),
      updateEvent = (\<lambda>c. c\<lparr>mediaQuery := ''q-md''\<rparr>)\<rparr>"

definition demo_matcher :: "string list \<Rightarrow> (nat \<times> MediaChange) list \<Rightarrow> MatchMedia" where
  "demo_matcher acts raw =
     \<lparr>activations = acts, mm_isActive = (\<lambda>q. q \<in> set acts), observe = (\<lambda>qs. raw)\<rparr>"

definition demo_observer ::
  "bool \<Rightarrow> string list \<Rightarrow> (nat \<times> MediaChange) list \<Rightarrow> MediaObserver" where
  "demo_observer flag acts raw =
     \<lparr>filterOverlaps = flag, breakpoints = demo_registry,
      matchMedia = demo_matcher acts raw, hook = demo_hook\<rparr>"

text \<open>The entries of the three breakpoints, and of a query the registry does not know.\<close>

definition entry_sm :: MediaChange where
  "entry_sm =
     \<lparr>matches = True, mediaQuery = ''q-sm'', mqAlias = ''sm'', suffix = [], priority = Some 1\<rparr>"

definition entry_md :: MediaChange where
  "entry_md =
     \<lparr>matches = True, mediaQuery = ''q-md'', mqAlias = ''md'', suffix = [], priority = Some 5\<rparr>"

definition entry_gt_sm :: MediaChange where
  "entry_gt_sm =
     \<lparr>matches = True, mediaQuery = ''q-gt-sm'', mqAlias = ''gt-sm'', suffix = [],
      priority = Some 3\<rparr>"

definition entry_custom :: MediaChange where
  "entry_custom =
     \<lparr>matches = True, mediaQuery = ''q-x'', mqAlias = [], suffix = [], priority = Some 0\<rparr>"

definition entry_empty :: MediaChange where
  "entry_empty =
     \<lparr>matches = True, mediaQuery = [], mqAlias = [], suffix = [], priority = Some 0\<rparr>"




text \<open>
  Three histories. In \<open>demo_flicker\<close> the query of \<open>md\<close> becomes active at time 0 and
  inactive again at time 5. In \<open>demo_resizing\<close> an unknown query is active from time 0
  to time 15; the queries of \<open>sm\<close>, \<open>gt-sm\<close> and \<open>md\<close> become active at the times 20, 30
  and 36; at time 60 the three become inactive and the unknown query active. In
  \<open>demo_leave\<close> the query of \<open>md\<close>, the only active one, becomes inactive at time 4.
\<close>

definition demo_flicker :: "nat \<Rightarrow> MediaObserver" where
  "demo_flicker t =
     demo_observer False (if t < 5 then [''q-md''] else [])
       [(0, new_MediaChange True ''q-md''), (5, new_MediaChange False ''q-md'')]"

definition demo_resizing :: "nat \<Rightarrow> MediaObserver" where
  "demo_resizing t =
     demo_observer False
       (if t < 15 then [''q-x'']
        else if t < 20 then []
        else if t < 30 then [''q-sm'']
        else if t < 36 then [''q-sm'', ''q-gt-sm'']
        else if t < 60 then [''q-sm'', ''q-gt-sm'', ''q-md'']
        else [''q-x''])
       [(0, new_MediaChange True ''q-x''), (15, new_MediaChange False ''q-x''),
        (20, new_MediaChange True ''q-sm''), (30, new_MediaChange True ''q-gt-sm''),
        (36, new_MediaChange True ''q-md''),
        (60, new_MediaChange False ''q-sm''), (60, new_MediaChange False ''q-gt-sm''),
        (60, new_MediaChange False ''q-md''), (60, new_MediaChange True ''q-x'')]"

definition demo_leave :: "nat \<Rightarrow> MediaObserver" where
  "demo_leave t =
     demo_observer False (if t < 4 then [''q-md''] else [])
       [(4, new_MediaChange False ''q-md'')]"

section \<open>Properties of the comparator\<close>

lemma or_else_zero: "or_else x 0 = (case x of None \<Rightarrow> 0 | Some p \<Rightarrow> p)"
  by (simp add: or_else_def split: option.split)

lemma priority_of_total: "priority_of a = Inr (effective_priority a)"
proof (cases a)
  case None
  then show ?thesis by (simp add: priority_of_def effective_priority_def)
next
  case (Some c)
  then show ?thesis
    by (simp add: priority_of_def get_priority_def effective_priority_def or_else_zero)
qed

text \<open>
  Claim C10. The comparator is total and never fails: for every pair of arguments,
  null or undefined entries and entries with an absent or zero priority included, it
  returns a number (never the \<open>TypeError\<close> of a property read on a missing entry), and
  that number is the priority of \<open>b\<close> minus the priority of \<open>a\<close>, where a missing entry
  and an entry without priority count as 0 and any other entry as its priority.
\<close>

theorem sortChangesByPriority_total:
  "sortChangesByPriority a b = Inr (effective_priority b - effective_priority a)
   \<and> effective_priority None = 0
   \<and> effective_priority (Some (c\<lparr>priority := None\<rparr>)) = 0
   \<and> effective_priority (Some (c\<lparr>priority := Some p\<rparr>)) = p"
proof -
  have "sortChangesByPriority a b = Inr (effective_priority b - effective_priority a)"
    by (simp add: sortChangesByPriority_def priority_of_total)
  then show ?thesis by (simp add: effective_priority_def)
qed

section \<open>The sort is the stable sort by descending priority\<close>

lemma compare_entries:
  "sortChangesByPriority (Some x) (Some y) = Inr (prio y - prio x)"
  by (simp add: sortChangesByPriority_def priority_of_total prio_def)

lemma insert_by_priority:
  "insert_by sortChangesByPriority x ys = Inr (insort_key (\<lambda>c. - prio c) x ys)"
  by (induction ys) (simp_all add: compare_entries)

lemma sort_by_priority:
  "sort_by sortChangesByPriority xs = Inr (sort_key (\<lambda>c. - prio c) xs)"
  by (induction xs) (simp_all add: insert_by_priority)

lemma findAllActivations_sorted:
  "findAllActivations obs = Inr (sort_key (\<lambda>c. - prio c) (activation_entries obs))"
  by (simp add: findAllActivations_def activation_entries_def sort_by_priority comp_def)

lemma recomputation_cases:
  "recomputation obs signal =
     (if hasChanges (excludeOverlaps obs (sort_key (\<lambda>c. - prio c) (activation_entries obs)))
      then [Inr (excludeOverlaps obs (sort_key (\<lambda>c. - prio c) (activation_entries obs)))]
      else [])"
  by (simp add: recomputation_def rx_filter_def rx_map_def rx_of_def findAllActivations_sorted)

section \<open>Overlap filter and gate\<close>

lemma hasChanges_iff: "hasChanges changes \<longleftrightarrow> (\<exists>c \<in> set changes. mediaQuery c \<noteq> [])"
  by (auto simp: hasChanges_def isValidQuery_def filter_empty_conv)

lemma excludeOverlaps_filter:
  "excludeOverlaps obs changes =
     (if filterOverlaps obs
      then filter (\<lambda>c. \<forall>bp. findByQuery (breakpoints obs) (mediaQuery c) = Some bp
                          \<longrightarrow> \<not> overlapping bp) changes
      else changes)"
  unfolding excludeOverlaps_def
  by (auto simp: Let_def split: option.splits intro!: filter_cong)

lemma excludeOverlaps_commute:
  "filter P (excludeOverlaps obs xs) = excludeOverlaps obs (filter P xs)"
  by (auto simp: excludeOverlaps_def intro: filter_cong)

lemma sorted_wrt_excludeOverlaps:
  "sorted_wrt R xs \<Longrightarrow> sorted_wrt R (excludeOverlaps obs xs)"
  by (simp add: excludeOverlaps_def sorted_wrt_filter)


lemma sorted_desc_sort_key:
  "sorted_wrt (\<lambda>a b. prio b \<le> prio a) (sort_key (\<lambda>c. - prio c) xs)"
proof -
  have "sorted (map (\<lambda>c. - prio c) (sort_key (\<lambda>c. - prio c) xs))"
    by (rule sorted_sort_key)
  then show ?thesis by (simp add: sorted_wrt_map)
qed

lemma stable_sort_key_prio:
  "filter (\<lambda>c. prio c = p) (sort_key (\<lambda>c. - prio c) xs) = filter (\<lambda>c. prio c = p) xs"
proof -
  have "filter (\<lambda>c. - prio c = - p) (sort_key (\<lambda>c. - prio c) xs)
        = filter (\<lambda>c. - prio c = - p) xs"
    by (rule sort_key_stable)
  then show ?thesis by simp
qed

text \<open>The definitions a concrete evaluation unfolds: those of the model, and those of
  the configuration evaluated on.\<close>

lemmas model_defs = activation_entries_def mergeMQAlias_def replaceWithPrintAlias_def
  new_MediaChange_def mergeAlias_def findByQuery_def prio_def effective_priority_def
  excludeOverlaps_def hasChanges_def isValidQuery_def

lemmas demo_defs = demo_observer_def demo_matcher_def demo_hook_def demo_registry_def
  bp_sm_def bp_md_def bp_gt_sm_def

section \<open>The recomputed and the published list\<close>

text \<open>
  Claim C1, as stated: on every burst the published list is recomputed in full from the
  matcher's current activations and contains exactly one \<open>MediaChange\<close> per active query.
  The published list is what \<^verbatim>\<open>map(excludeOverlaps)\<close> leaves of the recomputed one, so
  with \<^verbatim>\<open>filterOverlaps\<close> set it can have fewer entries than there are active queries:
  below, two queries are active and one entry is published.
\<close>

theorem published_list_drops_overlapping_entry:
  "recomputation (demo_observer True [''q-gt-sm'', ''q-md''] []) (new_MediaChange True ''q-md'')
     = [Inr [entry_md]]
   \<and> activations (matchMedia (demo_observer True [''q-gt-sm'', ''q-md''] []))
     = [''q-gt-sm'', ''q-md'']"
  by (simp add: recomputation_cases model_defs demo_defs entry_md_def)

text \<open>
  Claim C1, amended: on every burst the list is recomputed in full from the matcher's
  current activations. \<^verbatim>\<open>findAllActivations\<close> never fails, and its list holds exactly one
  \<open>MediaChange\<close> per query of \<^verbatim>\<open>matchMedia.activations\<close> (as many entries as queries, and
  up to order the entries below): the event \<open>MediaChange(true, query)\<close>, replaced by the
  print hook's substitute when \<^verbatim>\<open>hook.isPrintEvent\<close> holds of it, and only then merged with
  the registry's breakpoint for its query. What is published is that list after the
  overlap filter (all of it when \<^verbatim>\<open>filterOverlaps\<close> is false), if the gate lets it pass.
  The triggering signal is not used: any two signals give the same result; and
  \<open>recomputation\<close> has no other input than the observer's current state.
\<close>

theorem recomputed_from_current_activations:
  "\<exists>l. findAllActivations obs = Inr l
     \<and> mset l = mset (map (\<lambda>query.
           let change = new_MediaChange True query;
               change' = (if isPrintEvent (hook obs) change
                          then updateEvent (hook obs) change else change)
           in mergeAlias change' (findByQuery (breakpoints obs) (mediaQuery change')))
         (activations (matchMedia obs)))
     \<and> length l = length (activations (matchMedia obs))
     \<and> recomputation obs signal =
         (if hasChanges (excludeOverlaps obs l) then [Inr (excludeOverlaps obs l)] else [])
     \<and> excludeOverlaps (obs\<lparr>filterOverlaps := False\<rparr>) l = l
     \<and> recomputation obs signal' = recomputation obs signal"
proof -
  let ?l = "sort_key (\<lambda>c. - prio c) (activation_entries obs)"
  have entries: "activation_entries obs = map (\<lambda>query.
           let change = new_MediaChange True query;
               change' = (if isPrintEvent (hook obs) change
                          then updateEvent (hook obs) change else change)
           in mergeAlias change' (findByQuery (breakpoints obs) (mediaQuery change')))
         (activations (matchMedia obs))"
    by (simp add: activation_entries_def mergeMQAlias_def replaceWithPrintAlias_def Let_def)
  have 1: "findAllActivations obs = Inr ?l" by (rule findAllActivations_sorted)
  have 2: "mset ?l = mset (activation_entries obs)" by simp
  have 3: "length ?l = length (activations (matchMedia obs))"
    by (simp add: activation_entries_def)
  have 4: "recomputation obs signal =
         (if hasChanges (excludeOverlaps obs ?l) then [Inr (excludeOverlaps obs ?l)] else [])"
    by (rule recomputation_cases)
  have 5: "excludeOverlaps (obs\<lparr>filterOverlaps := False\<rparr>) ?l = ?l"
    by (simp add: excludeOverlaps_def)
  have 6: "recomputation obs signal' = recomputation obs signal"
    by (simp add: recomputation_def)
  from 1 2 3 4 5 6 show ?thesis unfolding entries by blast
qed

text \<open>
  With the queries of \<open>sm\<close>, \<open>print\<close> and \<open>gt-sm\<close> active and the overlap filter on: the
  print event is replaced by the event of \<open>md\<close> before the merge, and the overlapping
  \<open>gt-sm\<close> is recomputed but not published.
\<close>

theorem recomputed_from_current_activations_witness:
  "findAllActivations (demo_observer True [''q-sm'', ''print'', ''q-gt-sm''] [])
     = Inr [entry_md, entry_gt_sm, entry_sm]
   \<and> recomputation (demo_observer True [''q-sm'', ''print'', ''q-gt-sm''] [])
        (new_MediaChange True ''print'') = [Inr [entry_md, entry_sm]]"
proof -
  let ?obs = "demo_observer True [''q-sm'', ''print'', ''q-gt-sm''] []"
  obtain l where l: "findAllActivations ?obs = Inr l"
    and r: "recomputation ?obs (new_MediaChange True ''print'') =
         (if hasChanges (excludeOverlaps ?obs l) then [Inr (excludeOverlaps ?obs l)] else [])"
    using recomputed_from_current_activations [of ?obs "new_MediaChange True ''print''"]
    by blast
  have "findAllActivations ?obs = Inr [entry_md, entry_gt_sm, entry_sm]"
    by (simp add: findAllActivations_sorted model_defs demo_defs entry_sm_def entry_md_def
          entry_gt_sm_def)
  with l have "l = [entry_md, entry_gt_sm, entry_sm]" by simp
  with l r show ?thesis
    by (simp add: model_defs demo_defs entry_sm_def entry_md_def entry_gt_sm_def)
qed

section \<open>Priority order\<close>

text \<open>
  Claim C2. Every emitted activation list is sorted by descending priority, and entries
  of equal priority keep the relative order they had before the sort: the list of
  \<^verbatim>\<open>findAllActivations\<close> is sorted, and for every priority its entries of that priority
  are those of the unsorted list, in the same order; an emitted list, which is what the
  overlap filter leaves of it, is sorted as well and keeps the order of what the filter
  leaves of the unsorted list.
\<close>

theorem emitted_sorted_by_descending_priority:
  "\<exists>l0. findAllActivations obs = Inr l0
     \<and> sorted_wrt (\<lambda>a b. prio b \<le> prio a) l0
     \<and> (\<forall>p. filter (\<lambda>c. prio c = p) l0 = filter (\<lambda>c. prio c = p) (activation_entries obs))
     \<and> (\<forall>l. recomputation obs signal = [Inr l] \<longrightarrow>
           sorted_wrt (\<lambda>a b. prio b \<le> prio a) l
         \<and> (\<forall>p. filter (\<lambda>c. prio c = p) l
                  = filter (\<lambda>c. prio c = p) (excludeOverlaps obs (activation_entries obs))))"
proof -
  let ?l = "sort_key (\<lambda>c. - prio c) (activation_entries obs)"
  have 1: "findAllActivations obs = Inr ?l" by (rule findAllActivations_sorted)
  have 2: "sorted_wrt (\<lambda>a b. prio b \<le> prio a) ?l" by (rule sorted_desc_sort_key)
  have 3: "\<forall>p. filter (\<lambda>c. prio c = p) ?l = filter (\<lambda>c. prio c = p) (activation_entries obs)"
    by (simp add: stable_sort_key_prio)
  have 4: "sorted_wrt (\<lambda>a b. prio b \<le> prio a) l
         \<and> (\<forall>p. filter (\<lambda>c. prio c = p) l
                  = filter (\<lambda>c. prio c = p) (excludeOverlaps obs (activation_entries obs)))"
    if "recomputation obs signal = [Inr l]" for l
  proof -
    from that have l: "l = excludeOverlaps obs ?l"
      by (simp add: recomputation_cases split: if_splits)
    show ?thesis unfolding l
      by (simp add: sorted_wrt_excludeOverlaps 2 excludeOverlaps_commute stable_sort_key_prio)
  qed
  from 1 2 3 4 show ?thesis by blast
qed

text \<open>Activations with the priorities 1, 5, 3 are emitted in the order 5, 3, 1.\<close>

theorem emitted_sorted_by_descending_priority_witness:
  "recomputation (demo_observer False [''q-sm'', ''q-md'', ''q-gt-sm''] [])
       (new_MediaChange True ''q-sm'')
     = [Inr [entry_md, entry_gt_sm, entry_sm]]
   \<and> map prio (activation_entries (demo_observer False [''q-sm'', ''q-md'', ''q-gt-sm''] []))
     = [1, 5, 3]
   \<and> map prio [entry_md, entry_gt_sm, entry_sm] = [5, 3, 1]
   \<and> sorted_wrt (\<lambda>a b. prio b \<le> prio a) [entry_md, entry_gt_sm, entry_sm]"
proof -
  let ?obs = "demo_observer False [''q-sm'', ''q-md'', ''q-gt-sm''] []"
  have r: "recomputation ?obs (new_MediaChange True ''q-sm'')
             = [Inr [entry_md, entry_gt_sm, entry_sm]]"
    by (simp add: recomputation_cases model_defs demo_defs entry_sm_def entry_md_def
          entry_gt_sm_def)
  with emitted_sorted_by_descending_priority [of ?obs "new_MediaChange True ''q-sm''"]
  have "sorted_wrt (\<lambda>a b. prio b \<le> prio a) [entry_md, entry_gt_sm, entry_sm]" by blast
  with r show ?thesis
    by (simp add: model_defs demo_defs entry_sm_def entry_md_def entry_gt_sm_def)
qed

section \<open>Overlap filtering\<close>

text \<open>
  Claim C3. With \<^verbatim>\<open>filterOverlaps\<close> true, the overlap filter removes exactly the entries
  whose \<^verbatim>\<open>mediaQuery\<close> the registry resolves to a breakpoint with \<^verbatim>\<open>overlapping\<close> true,
  and keeps the others in their order; entries whose query has no breakpoint in the
  registry are always kept, whatever the flag; with \<^verbatim>\<open>filterOverlaps\<close> false, which is the
  value a new observer has, the list passes through unchanged. An emitted list is the
  list of \<^verbatim>\<open>findAllActivations\<close> after this filter.
\<close>

theorem overlap_filter:
  "excludeOverlaps obs changes =
     (if filterOverlaps obs
      then filter (\<lambda>c. \<forall>bp. findByQuery (breakpoints obs) (mediaQuery c) = Some bp
                          \<longrightarrow> \<not> overlapping bp) changes
      else changes)
   \<and> filter (\<lambda>c. findByQuery (breakpoints obs) (mediaQuery c) = None)
        (excludeOverlaps obs changes)
     = filter (\<lambda>c. findByQuery (breakpoints obs) (mediaQuery c) = None) changes
   \<and> \<not> filterOverlaps (new_MediaObserver bps mm h)
   \<and> (\<forall>l. recomputation obs signal = [Inr l] \<longrightarrow>
         (\<exists>l0. findAllActivations obs = Inr l0 \<and> l = excludeOverlaps obs l0))"
proof -
  have 1: "filter (\<lambda>c. findByQuery (breakpoints obs) (mediaQuery c) = None)
        (excludeOverlaps obs changes)
     = filter (\<lambda>c. findByQuery (breakpoints obs) (mediaQuery c) = None) changes"
    by (auto simp: excludeOverlaps_filter intro: filter_cong)
  have 2: "\<not> filterOverlaps (new_MediaObserver bps mm h)"
    by (simp add: new_MediaObserver_def)
  have 3: "\<exists>l0. findAllActivations obs = Inr l0 \<and> l = excludeOverlaps obs l0"
    if "recomputation obs signal = [Inr l]" for l
    using that by (simp add: recomputation_cases findAllActivations_sorted split: if_splits)
  from 1 2 3 show ?thesis using excludeOverlaps_filter [of obs changes] by blast
qed

text \<open>
  The overlapping \<open>gt-sm\<close>, the exclusive \<open>sm\<close> and a query unknown to the registry are
  active: with the filter on, \<open>sm\<close> and the unknown query are emitted; with the filter
  off, all three.
\<close>

theorem overlap_filter_witness:
  "recomputation (demo_observer True [''q-gt-sm'', ''q-sm'', ''q-x''] [])
       (new_MediaChange True ''q-sm'')
     = [Inr [entry_sm, entry_custom]]
   \<and> recomputation (demo_observer False [''q-gt-sm'', ''q-sm'', ''q-x''] [])
       (new_MediaChange True ''q-sm'')
     = [Inr [entry_gt_sm, entry_sm, entry_custom]]
   \<and> excludeOverlaps (demo_observer True [] []) [entry_gt_sm, entry_sm, entry_custom]
     = [entry_sm, entry_custom]
   \<and> excludeOverlaps (demo_observer False [] []) [entry_gt_sm, entry_sm, entry_custom]
     = [entry_gt_sm, entry_sm, entry_custom]"
proof -
  have a: "excludeOverlaps (demo_observer True [] []) [entry_gt_sm, entry_sm, entry_custom]
             = [entry_sm, entry_custom]"
    using overlap_filter [of "demo_observer True [] []" "[entry_gt_sm, entry_sm, entry_custom]"]
    by (simp add: model_defs demo_defs entry_sm_def entry_gt_sm_def entry_custom_def)
  have b: "excludeOverlaps (demo_observer False [] []) [entry_gt_sm, entry_sm, entry_custom]
             = [entry_gt_sm, entry_sm, entry_custom]"
    using overlap_filter [of "demo_observer False [] []" "[entry_gt_sm, entry_sm, entry_custom]"]
    by (simp add: model_defs demo_defs entry_sm_def entry_gt_sm_def entry_custom_def)
  show ?thesis using a b
    by (simp add: recomputation_cases model_defs demo_defs entry_sm_def entry_gt_sm_def
        entry_custom_def)
qed

section \<open>The gate \<^verbatim>\<open>filter(hasChanges)\<close>\<close>

text \<open>
  Claim C6. Empty suppression: an aggregated list is emitted if and only if, after the
  overlap filter, at least one entry in it has a non-empty \<^verbatim>\<open>mediaQuery\<close>; what is
  emitted then is that list; in particular nothing is emitted when the filter has
  removed all entries.
\<close>

theorem emission_iff_valid_query:
  assumes "findAllActivations obs = Inr l0"
  shows "(recomputation obs signal \<noteq> []
            \<longleftrightarrow> (\<exists>c \<in> set (excludeOverlaps obs l0). mediaQuery c \<noteq> []))
       \<and> (recomputation obs signal = []
            \<or> recomputation obs signal = [Inr (excludeOverlaps obs l0)])
       \<and> (excludeOverlaps obs l0 = [] \<longrightarrow> recomputation obs signal = [])"
proof -
  from assms have l0: "sort_key (\<lambda>c. - prio c) (activation_entries obs) = l0"
    by (simp add: findAllActivations_sorted)
  show ?thesis
    by (auto simp: recomputation_cases l0 hasChanges_iff)
qed

text \<open>
  Only the overlapping \<open>gt-sm\<close> is active: with the filter on, it is removed and nothing
  is emitted; with the filter off, it is emitted.
\<close>

theorem emission_iff_valid_query_witness:
  "recomputation (demo_observer True [''q-gt-sm''] []) (new_MediaChange True ''q-gt-sm'') = []
   \<and> findAllActivations (demo_observer True [''q-gt-sm''] []) = Inr [entry_gt_sm]
   \<and> excludeOverlaps (demo_observer True [''q-gt-sm''] []) [entry_gt_sm] = []
   \<and> recomputation (demo_observer False [''q-gt-sm''] []) (new_MediaChange True ''q-gt-sm'')
     = [Inr [entry_gt_sm]]"
proof -
  let ?obs = "demo_observer True [''q-gt-sm''] []"
  let ?obs' = "demo_observer False [''q-gt-sm''] []"
  have f: "findAllActivations ?obs = Inr [entry_gt_sm]"
    by (simp add: findAllActivations_sorted model_defs demo_defs entry_gt_sm_def)
  have f': "findAllActivations ?obs' = Inr [entry_gt_sm]"
    by (simp add: findAllActivations_sorted model_defs demo_defs entry_gt_sm_def)
  have e: "excludeOverlaps ?obs [entry_gt_sm] = []"
    by (simp add: model_defs demo_defs entry_gt_sm_def)
  have e': "excludeOverlaps ?obs' [entry_gt_sm] = [entry_gt_sm]"
    by (simp add: model_defs demo_defs entry_gt_sm_def)
  have "recomputation ?obs (new_MediaChange True ''q-gt-sm'') = []"
    using emission_iff_valid_query [OF f, of "new_MediaChange True ''q-gt-sm''"] e by simp
  moreover have "recomputation ?obs' (new_MediaChange True ''q-gt-sm'') = [Inr [entry_gt_sm]]"
    using emission_iff_valid_query [OF f', of "new_MediaChange True ''q-gt-sm''"] e'
    by (auto simp: entry_gt_sm_def)
  ultimately show ?thesis using f e by simp
qed

text \<open>
  Claim C9. The check for an empty query only gates the emission, it filters no entry:
  whenever one entry of the candidate list (the recomputed list after the overlap filter)
  has a non-empty \<^verbatim>\<open>mediaQuery\<close>, the candidate list is emitted in full, its entries with
  an empty \<^verbatim>\<open>mediaQuery\<close> included.
\<close>

theorem gate_keeps_whole_list:
  assumes "findAllActivations obs = Inr l0"
    and "c \<in> set (excludeOverlaps obs l0)" and "mediaQuery c \<noteq> []"
  shows "recomputation obs signal = [Inr (excludeOverlaps obs l0)]"
proof -
  from assms(1) have l0: "sort_key (\<lambda>c. - prio c) (activation_entries obs) = l0"
    by (simp add: findAllActivations_sorted)
  from assms(2,3) have "hasChanges (excludeOverlaps obs l0)"
    by (auto simp: hasChanges_iff)
  then show ?thesis by (simp add: recomputation_cases l0)
qed

text \<open>
  The matcher reports the empty query and the query of \<open>md\<close> as active: both entries
  are emitted, the one with the empty \<^verbatim>\<open>mediaQuery\<close> too.
\<close>

theorem gate_keeps_whole_list_witness:
  "recomputation (demo_observer False [[], ''q-md''] []) (new_MediaChange True ''q-md'')
     = [Inr [entry_md, entry_empty]]
   \<and> mediaQuery entry_empty = []"
proof -
  let ?obs = "demo_observer False [[], ''q-md''] []"
  have f: "findAllActivations ?obs = Inr [entry_md, entry_empty]"
    by (simp add: findAllActivations_sorted model_defs demo_defs entry_md_def entry_empty_def)
  have e: "excludeOverlaps ?obs [entry_md, entry_empty] = [entry_md, entry_empty]"
    by (simp add: model_defs demo_defs entry_md_def entry_empty_def)
  have m: "entry_md \<in> set (excludeOverlaps ?obs [entry_md, entry_empty])"
    unfolding e by simp
  have q: "mediaQuery entry_md \<noteq> []" by (simp add: entry_md_def)
  show ?thesis
    using gate_keeps_whole_list [OF f m q, of "new_MediaChange True ''q-md''"] e
    by (simp add: entry_empty_def)
qed

section \<open>Alias resolution\<close>

lemma findByQuery_Some: "findByQuery locator q = Some bp \<Longrightarrow> bp_mediaQuery bp = q"
  by (auto simp: findByQuery_def find_Some_iff)








section \<open>The point query \<^verbatim>\<open>isActive\<close>\<close>

text \<open>
  Claim C8. For every string \<open>s\<close>, \<^verbatim>\<open>isActive(s)\<close> resolves \<open>s\<close> through the registry, to
  the \<^verbatim>\<open>mediaQuery\<close> of the breakpoint found by alias or else by query, and to \<open>s\<close> itself
  when neither lookup succeeds (so whenever no breakpoint has the alias \<open>s\<close>, the query
  asked is \<open>s\<close>), and returns \<^verbatim>\<open>matchMedia.isActive\<close> of that query. The result is a
  direct read of the matcher's current state: it does not depend on anything the
  aggregation reads or produces, neither on the flag \<^verbatim>\<open>filterOverlaps\<close>, nor on the
  print hook, nor on the matcher's activation list or its signals.
\<close>

theorem isActive_reads_matcher:
  "isActive obs s =
     mm_isActive (matchMedia obs)
       (case findByAlias (breakpoints obs) s of
          Some bp \<Rightarrow> bp_mediaQuery bp
        | None \<Rightarrow> (case findByQuery (breakpoints obs) s of
                     Some bp \<Rightarrow> bp_mediaQuery bp
                   | None \<Rightarrow> s))
   \<and> (findByAlias (breakpoints obs) s = None
        \<longrightarrow> isActive obs s = mm_isActive (matchMedia obs) s)
   \<and> isActive (obs\<lparr>filterOverlaps := f, hook := h\<rparr>) s = isActive obs s
   \<and> isActive (obs\<lparr>matchMedia := (matchMedia obs)\<lparr>activations := a, observe := w\<rparr>\<rparr>) s
     = isActive obs s"
proof -
  have 1: "isActive obs s =
     mm_isActive (matchMedia obs)
       (case findByAlias (breakpoints obs) s of
          Some bp \<Rightarrow> bp_mediaQuery bp
        | None \<Rightarrow> (case findByQuery (breakpoints obs) s of
                     Some bp \<Rightarrow> bp_mediaQuery bp
                   | None \<Rightarrow> s))"
    by (simp add: isActive_def toMediaQuery_def split: option.split)
  have 2: "isActive obs s = mm_isActive (matchMedia obs) s"
    if "findByAlias (breakpoints obs) s = None"
    using that by (auto simp: 1 split: option.split dest: findByQuery_Some)
  have 3: "isActive (obs\<lparr>filterOverlaps := f, hook := h\<rparr>) s = isActive obs s"
    by (simp add: isActive_def)
  have 4: "isActive (obs\<lparr>matchMedia := (matchMedia obs)\<lparr>activations := a, observe := w\<rparr>\<rparr>) s
     = isActive obs s"
    by (simp add: isActive_def)
  from 1 2 3 4 show ?thesis by blast
qed

text \<open>
  With the query of \<open>md\<close> and an unknown query active: \<open>md\<close> is active by its alias and
  by its query, the unknown query as a literal query, and \<open>sm\<close> is not active.
\<close>

theorem isActive_reads_matcher_witness:
  "isActive (demo_observer False [''q-md'', ''q-x''] []) ''md''
   \<and> isActive (demo_observer False [''q-md'', ''q-x''] []) ''q-md''
   \<and> isActive (demo_observer False [''q-md'', ''q-x''] []) ''q-x''
   \<and> \<not> isActive (demo_observer False [''q-md'', ''q-x''] []) ''sm''
   \<and> findByAlias demo_registry ''md'' = Some bp_md
   \<and> findByAlias demo_registry ''q-x'' = None"
  using isActive_reads_matcher [of "demo_observer False [''q-md'', ''q-x''] []" "''md''"]
        isActive_reads_matcher [of "demo_observer False [''q-md'', ''q-x''] []" "''q-md''"]
        isActive_reads_matcher [of "demo_observer False [''q-md'', ''q-x''] []" "''q-x''"]
        isActive_reads_matcher [of "demo_observer False [''q-md'', ''q-x''] []" "''sm''"]
  by (simp add: model_defs demo_defs findByAlias_def)

section \<open>Debounce\<close>

lemma within_window_burst: "within_window due sigs \<Longrightarrow> burst due sigs"
proof (induction due sigs rule: burst.induct)
  case (1 due)
  then show ?case by (simp add: within_window_def)
next
  case (2 due t v)
  then show ?case by simp
next
  case (3 due t v t' v' rest)
  from "3.prems" have "t' < t + due" and "within_window due ((t', v') # rest)"
    by (auto simp: within_window_def)
  with "3.IH" show ?case by simp
qed

lemma burst_not_Nil: "burst due sigs \<Longrightarrow> sigs \<noteq> []"
  by (cases sigs) simp_all

lemma debounceTime_burst:
  "burst due sigs \<Longrightarrow> debounceTime due sigs = [(fst (last sigs) + due, snd (last sigs))]"
proof (induction due sigs rule: debounceTime.induct)
  case (1 due)
  then show ?case by simp
next
  case (2 due t v)
  then show ?case by simp
next
  case (3 due t v t' v' rest)
  from "3.prems" have b: "burst due ((t', v') # rest)" and le: "t' \<le> t + due"
    by simp_all
  from le have "\<not> t + due < t'" by simp
  with "3.IH"(2) b show ?case by simp
qed

lemma debounceTime_append:
  "apart due xs ys \<Longrightarrow> debounceTime due (xs @ ys) = debounceTime due xs @ debounceTime due ys"
proof (induction due xs rule: debounceTime.induct)
  case (1 due)
  then show ?case by simp
next
  case (2 due t v)
  then show ?case by (cases ys) (auto simp: apart_def)
next
  case (3 due t v t' v' rest)
  from "3.prems" have "apart due ((t', v') # rest) ys"
    by (auto simp: apart_def split: list.splits)
  with "3.IH" show ?case by simp
qed

lemma set_debounceTime:
  "(t, v) \<in> set (debounceTime due sigs) \<Longrightarrow> \<exists>t0. (t0, v) \<in> set sigs \<and> t = t0 + due"
  by (induction due sigs rule: debounceTime.induct) (auto split: if_splits)

lemma until_error_values:
  "\<forall>n \<in> set ns. \<exists>v. snd n = Inr v \<Longrightarrow> until_error ns = ns"
  by (induction ns rule: until_error.induct) simp_all

lemma recomputation_values: "n \<in> set (recomputation obs s) \<Longrightarrow> \<exists>v. n = Inr v"
  by (simp add: recomputation_cases split: if_splits)

lemma recomputations_append:
  "recomputations obs (xs @ ys) = recomputations obs xs @ recomputations obs ys"
  by (simp add: recomputations_def)

lemma recomputation_observe:
  "recomputation (obs\<lparr>matchMedia := (matchMedia obs)\<lparr>observe := w\<rparr>\<rparr>) s = recomputation obs s"
proof -
  let ?obs' = "obs\<lparr>matchMedia := (matchMedia obs)\<lparr>observe := w\<rparr>\<rparr>"
  have "activation_entries ?obs' = activation_entries obs"
    by (simp add: activation_entries_def mergeMQAlias_def replaceWithPrintAlias_def)
  moreover have "excludeOverlaps ?obs' xs = excludeOverlaps obs xs" for xs
    by (simp add: excludeOverlaps_def)
  ultimately show ?thesis by (simp add: recomputation_cases)
qed

text \<open>The pipe never delivers an error, so nothing is cut off.\<close>

lemma buildObservable_values:
  "buildObservable obs mqList =
     recomputations obs
       (debounceTime 10
         (filter (\<lambda>(t, change). matches change)
           (observe (matchMedia (obs 0)) (withPrintQuery (hook (obs 0)) mqList))))"
  unfolding buildObservable_def recomputations_def
  by (rule until_error_values) (auto dest: recomputation_values)

text \<open>
  Claim C4, as stated: every burst of \<open>N \<ge> 1\<close> activation signals within one debounce
  window of 10 ms produces exactly one aggregated emission. The gate
  \<^verbatim>\<open>filter(hasChanges)\<close> stands after the recomputation, so a burst produces no emission
  when the list recomputed at the end of the window does not pass it: below, the one
  activation signal (at time 0) arrives within one window, the query is inactive again
  when the window ends (at time 10), and nothing is published.
\<close>

theorem burst_without_emission:
  "buildObservable demo_flicker [''q-md''] = []
   \<and> filter (\<lambda>(t, change). matches change)
        (observe (matchMedia (demo_flicker 0)) (withPrintQuery (hook (demo_flicker 0)) [''q-md'']))
     = [(0, new_MediaChange True ''q-md'')]
   \<and> within_window 10 [(0 :: nat, new_MediaChange True ''q-md'')]"
  by (simp add: buildObservable_values recomputations_def within_window_def
      recomputation_cases model_defs demo_defs demo_flicker_def)

text \<open>
  Claim C4, amended: debounce coalescing. Take a burst of \<open>N \<ge> 1\<close> raw activation
  signals, each arriving at most 10 ms after the one before it (as the signals arriving
  within one debounce window of 10 ms do), where the activation signals before the
  burst, if any, end more than 10 ms before its first signal and those after it, if
  any, begin more than 10 ms after its last. For every such burst the recomputation runs
  exactly once, 10 ms after the last signal of the burst, on the matcher's activation
  state of that moment, not on the state at any individual signal; at most one
  aggregated emission is produced for the burst: exactly one, the recomputed list after
  the overlap filter, when that list has an entry with a non-empty \<^verbatim>\<open>mediaQuery\<close>, and
  none otherwise. What the signals before and after the burst publish is what they
  publish without it.
\<close>

theorem burst_coalesced:
  assumes "filter (\<lambda>(t, change). matches change)
             (observe (matchMedia (obs 0)) (withPrintQuery (hook (obs 0)) mqList))
           = before @ window @ after"
    and "burst 10 window"
    and "apart 10 before window" and "apart 10 window after"
    and "T = fst (last window) + 10"
  shows "\<exists>l0. findAllActivations (obs T) = Inr l0
     \<and> buildObservable obs mqList =
         recomputations obs (debounceTime 10 before)
         @ (if hasChanges (excludeOverlaps (obs T) l0)
            then [(T, Inr (excludeOverlaps (obs T) l0))] else [])
         @ recomputations obs (debounceTime 10 after)"
proof -
  let ?l0 = "sort_key (\<lambda>c. - prio c) (activation_entries (obs T))"
  from assms(2) have ne: "window \<noteq> []" by (rule burst_not_Nil)
  have d: "debounceTime 10 window = [(T, snd (last window))]"
    using debounceTime_burst [OF assms(2)] assms(5) by simp
  from assms(3) ne have "apart 10 before (window @ after)"
    by (cases window) (auto simp: apart_def split: list.splits)
  then have "debounceTime 10 (before @ window @ after)
      = debounceTime 10 before @ debounceTime 10 window @ debounceTime 10 after"
    by (simp add: debounceTime_append assms(4))
  then have "buildObservable obs mqList =
      recomputations obs (debounceTime 10 before)
      @ recomputations obs [(T, snd (last window))]
      @ recomputations obs (debounceTime 10 after)"
    unfolding buildObservable_values assms(1) d by (simp only: recomputations_append)
  moreover have "recomputations obs [(T, snd (last window))] =
         (if hasChanges (excludeOverlaps (obs T) ?l0)
          then [(T, Inr (excludeOverlaps (obs T) ?l0))] else [])"
    by (simp add: recomputations_def recomputation_cases)
  moreover have "findAllActivations (obs T) = Inr ?l0" by (rule findAllActivations_sorted)
  ultimately show ?thesis by simp
qed

text \<open>
  An activation signal at time 0 is followed by three at the times 20, 30 and 36, and
  these by one at time 60. The three are one burst, though they span more than one
  window and two of them are exactly 10 ms apart: one list is published for them, at
  time 46, with the three activations of that moment. The signals before and after give
  the lists published at the times 10 and 70.
\<close>

theorem burst_coalesced_witness:
  "buildObservable demo_resizing []
     = [(10, Inr [entry_custom]), (46, Inr [entry_md, entry_gt_sm, entry_sm]),
        (70, Inr [entry_custom])]
   \<and> filter (\<lambda>(t, change). matches change)
        (observe (matchMedia (demo_resizing 0)) (withPrintQuery (hook (demo_resizing 0)) []))
     = [(0, new_MediaChange True ''q-x'')]
        @ [(20, new_MediaChange True ''q-sm''), (30, new_MediaChange True ''q-gt-sm''),
           (36, new_MediaChange True ''q-md'')]
        @ [(60, new_MediaChange True ''q-x'')]"
proof -
  let ?before = "[(0::nat, new_MediaChange True ''q-x'')]"
  let ?window = "[(20::nat, new_MediaChange True ''q-sm''),
                  (30, new_MediaChange True ''q-gt-sm''), (36, new_MediaChange True ''q-md'')]"
  let ?after = "[(60::nat, new_MediaChange True ''q-x'')]"
  have a: "filter (\<lambda>(t, change). matches change)
        (observe (matchMedia (demo_resizing 0)) (withPrintQuery (hook (demo_resizing 0)) []))
     = ?before @ ?window @ ?after"
    by (simp add: model_defs demo_defs demo_resizing_def)
  have b: "burst 10 ?window" by simp
  have p: "apart 10 ?before ?window" by (simp add: apart_def)
  have q: "apart 10 ?window ?after" by (simp add: apart_def)
  have t: "(46::nat) = fst (last ?window) + 10" by simp
  have f: "findAllActivations (demo_resizing 46) = Inr [entry_md, entry_gt_sm, entry_sm]"
    by (simp add: findAllActivations_sorted model_defs demo_defs demo_resizing_def
          entry_sm_def entry_md_def entry_gt_sm_def)
  from burst_coalesced [of demo_resizing "[]" ?before ?window ?after 46, OF a b p q t] f
  have "buildObservable demo_resizing [] =
         recomputations demo_resizing (debounceTime 10 ?before)
         @ (if hasChanges (excludeOverlaps (demo_resizing 46) [entry_md, entry_gt_sm, entry_sm])
            then [(46, Inr (excludeOverlaps (demo_resizing 46)
                              [entry_md, entry_gt_sm, entry_sm]))]
            else [])
         @ recomputations demo_resizing (debounceTime 10 ?after)"
    by auto
  then have "buildObservable demo_resizing []
     = [(10, Inr [entry_custom]), (46, Inr [entry_md, entry_gt_sm, entry_sm]),
        (70, Inr [entry_custom])]"
    by (simp add: recomputations_def recomputation_cases model_defs demo_defs
          demo_resizing_def entry_sm_def entry_md_def entry_gt_sm_def entry_custom_def)
  with a show ?thesis by simp
qed

section \<open>Deactivations\<close>

text \<open>
  Claim C5. A deactivation signal (a raw \<open>MediaChange\<close> with \<^verbatim>\<open>matches\<close> false) never
  triggers a published emission. For every sequence of raw signals: when all of them are
  deactivations, nothing is published; every published notification comes 10 ms after
  an activation signal of the sequence; and only the signals with \<^verbatim>\<open>matches\<close> true reach
  the debounce and recomputation stages, since a matcher delivering just these gives the
  same publications.
\<close>

theorem deactivations_never_publish:
  assumes "raw = observe (matchMedia (obs 0)) (withPrintQuery (hook (obs 0)) mqList)"
  shows "((\<forall>(t, change) \<in> set raw. \<not> matches change) \<longrightarrow> buildObservable obs mqList = [])
       \<and> (\<forall>(t, n) \<in> set (buildObservable obs mqList).
            \<exists>(t0, change) \<in> set raw. matches change \<and> t = t0 + 10)
       \<and> buildObservable
           (\<lambda>t. (obs t)\<lparr>matchMedia := (matchMedia (obs t))
              \<lparr>observe := (\<lambda>qs. filter (\<lambda>(t, change). matches change) raw)\<rparr>\<rparr>) mqList
         = buildObservable obs mqList"
proof -
  let ?acts = "filter (\<lambda>(t, change). matches change) raw"
  have b: "buildObservable obs mqList = recomputations obs (debounceTime 10 ?acts)"
    by (simp add: buildObservable_values assms)
  have 1: "buildObservable obs mqList = []" if "\<forall>(t, change) \<in> set raw. \<not> matches change"
  proof -
    from that have "?acts = []" by (auto simp: filter_empty_conv)
    then show ?thesis by (simp add: b recomputations_def)
  qed
  have 2: "\<exists>(t0, change) \<in> set raw. matches change \<and> t = t0 + 10"
    if "(t, n) \<in> set (buildObservable obs mqList)" for t n
  proof -
    from that obtain change where "(t, change) \<in> set (debounceTime 10 ?acts)"
      by (auto simp: b recomputations_def)
    from set_debounceTime [OF this] obtain t0 where
      "(t0, change) \<in> set ?acts" and "t = t0 + 10" by blast
    then show ?thesis by auto
  qed
  have 3: "buildObservable
           (\<lambda>t. (obs t)\<lparr>matchMedia := (matchMedia (obs t))\<lparr>observe := (\<lambda>qs. ?acts)\<rparr>\<rparr>) mqList
         = buildObservable obs mqList"
    by (simp add: b) (simp add: buildObservable_values recomputations_def recomputation_observe)
  from 1 2 3 show ?thesis by blast
qed

text \<open>
  The query of \<open>md\<close> is the only active one and becomes inactive at time 4, with no
  activation: nothing is published.
\<close>

theorem deactivations_never_publish_witness:
  "buildObservable demo_leave [''q-md''] = []
   \<and> observe (matchMedia (demo_leave 0)) (withPrintQuery (hook (demo_leave 0)) [''q-md''])
     = [(4, new_MediaChange False ''q-md'')]
   \<and> activations (matchMedia (demo_leave 0)) = [''q-md'']"
proof -
  have r: "[(4, new_MediaChange False ''q-md'')]
        = observe (matchMedia (demo_leave 0)) (withPrintQuery (hook (demo_leave 0)) [''q-md''])"
    by (simp add: model_defs demo_defs demo_leave_def)
  have d: "\<forall>(t, change) \<in> set [(4::nat, new_MediaChange False ''q-md'')]. \<not> matches change"
    by (simp add: new_MediaChange_def)
  from deactivations_never_publish [of _ demo_leave "[''q-md'']", OF r] d
  have "buildObservable demo_leave [''q-md''] = []" by blast
  then show ?thesis using r by (simp add: model_defs demo_defs demo_leave_def)
qed

end
